theory Spec2Isabelle
  imports Complex_Main
begin

section \<open>Data model\<close>

text \<open>
  \<open>Mass\<close> is a C++ \<open>double\<close> in the source. It is idealised here as a real number:
  rounding, infinities and NaN are outside the model, and every statement below is about
  exact arithmetic.
\<close>

type_synonym Mass = real

text \<open>Agents (communicators, models) are addressed by their integer id (\<open>SN\<close>/\<open>ID\<close>).\<close>

type_synonym Agent = nat

text \<open>
  Every failure the modelled code can raise. The source throws \<open>GenException\<close> with a message;
  the constructor names are the error kinds of the specification:
  \<open>NotSupplier\<close> is "RecipeReactor is not the supplier of this msg.",
  \<open>CommodityMismatch\<close> is "RecipeReactor can only send out_commod materials.".
\<close>

datatype error =
    NotSupplier
  | CommodityMismatch
  | ExtractOutOfRange
  | NoDestination
  | Circular
  | TerminalMessage
  | InvalidRecipient

text \<open>
  Modelled from the spec: the class \<open>Material\<close> (the Resource of the specification) is not
  among the sources; only its uses in RecipeReactor.cpp are. A Resource has an opaque
  composition, a unit tag and a scalar total quantity; only the scalar is kept here, together
  with the two tags the reactor copies (\<open>getUnits\<close>, \<open>getName\<close>).
\<close>

record Material =
  units :: string
  mat_name :: string
  totMass :: Mass

text \<open>
  Modelled from the spec: \<open>absorb(other)\<close> consumes \<open>other\<close> entirely, adding its quantity
  into \<open>self\<close>.
\<close>

definition absorb :: "Material \<Rightarrow> Material \<Rightarrow> Material" where
  "absorb self other = self\<lparr>totMass := totMass self + totMass other\<rparr>"

text \<open>
  Modelled from the spec: \<open>extract(amount)\<close> splits off a fresh Resource of exactly
  \<open>amount\<close> and decrements \<open>self\<close> by the same; it fails if
  \<open>amount > total_quantity()\<close> or \<open>amount < 0\<close>. The result is the pair
  (extracted, what is left of \<open>self\<close>).
\<close>

definition extractMass :: "Material \<Rightarrow> Mass \<Rightarrow> error + (Material \<times> Material)" where
  "extractMass self a =
     (if a > totMass self \<or> a < 0 then Inl ExtractOutOfRange
      else Inr (self\<lparr>totMass := a\<rparr>, self\<lparr>totMass := totMass self - a\<rparr>))"

text \<open>
  The empty material both loops of the reactor start from:
  \<open>new Material(CompMap(), m->getUnits(), m->getName(), 0, atomBased)\<close>.
\<close>

definition emptyLike :: "Material \<Rightarrow> Material" where
  "emptyLike m = \<lparr>units = units m, mat_name = mat_name m, totMass = 0\<rparr>"

text \<open>
  Modelled from the spec: a Commodity is an identifier plus a reference to exactly one
  Market that clears it (\<open>getName\<close>, \<open>getMarket\<close>); the class is not among the sources.
  The source compares commodities by pointer; the registry holds one object per commodity.
\<close>

record Commodity =
  commod_name :: string
  commod_market :: Agent

text \<open>Message.h: \<open>enum MessageDir {UP_MSG, DOWN_MSG, NONE_MSG}\<close>. The terminal direction
  the specification calls DONE is \<open>NONE_MSG\<close>.\<close>

datatype MessageDir = UP_MSG | DOWN_MSG | NONE_MSG

text \<open>Message.h, \<open>struct Transaction\<close>. The field \<open>min\<close> is named \<open>minimum\<close>; supplier and
  requester are unset (\<open>None\<close>) until a market writes them.\<close>

record Transaction =
  commod :: Commodity
  amount :: Mass
  minimum :: Mass
  price :: real
  resource :: "Material option"
  supplier :: "Agent option"
  requester :: "Agent option"

text \<open>Message.h, \<open>class Message\<close>: \<open>dir_\<close>, \<open>trans_\<close>, \<open>sender_\<close>, \<open>recipient_\<close>,
  \<open>path_stack_\<close>, \<open>current_owner_\<close>, and the designated next destination set by
  \<open>setNextDest\<close>. The path stack is a list whose head is the top of the stack.\<close>

record Message =
  dir :: MessageDir
  transaction :: Transaction
  sender :: Agent
  recipient :: Agent
  path_stack :: "Agent list"
  next_dest :: "Agent option"
  current_owner :: "Agent option"

text \<open>
  Modelled from the spec: the body of the constructor
  \<open>Message(Communicator* sender, Communicator* receiver, Transaction trans)\<close>, which
  Message.h declares ("creates an upward message using the given sender, recipient, and
  transaction"), is not among the sources. A message is created by its originator in state
  UP; the originator holds it, its path stack is empty and no next destination is
  designated.
\<close>

definition createMessage :: "Agent \<Rightarrow> Agent \<Rightarrow> Transaction \<Rightarrow> Message" where
  "createMessage toSend toReceive tx =
     \<lparr>dir = UP_MSG, transaction = tx, sender = toSend, recipient = toReceive,
      path_stack = [], next_dest = None, current_owner = Some toSend\<rparr>"

text \<open>
  Modelled from the spec: the constructor
  \<open>Message(dir, commod, amount, minAmt, price, sender, recipient)\<close> that RecipeReactor.cpp
  calls is declared in no source file. It fills the transaction with the commodity, the
  amount, the minimum amount and the price; supplier and requester are initially unset.
\<close>

definition newMessage ::
  "MessageDir \<Rightarrow> Commodity \<Rightarrow> Mass \<Rightarrow> Mass \<Rightarrow> real \<Rightarrow> Agent \<Rightarrow> Agent \<Rightarrow> Message" where
  "newMessage d c amt mn p toSend toReceive =
     (createMessage toSend toReceive
        \<lparr>commod = c, amount = amt, minimum = mn, price = p,
         resource = None, supplier = None, requester = None\<rparr>)\<lparr>dir := d\<rparr>"

section \<open>RecipeReactor\<close>

text \<open>
  The members of RecipeReactor that its message and material handling reads or writes
  (the dates, the state and the reactor type that \<open>init\<close> also reads are used by none of
  the methods below). \<open>inventory\<close>, \<open>stocks\<close> and \<open>ordersWaiting\<close> are deques, modelled
  as lists whose head is the front. Modelled from the spec: \<open>getSN()\<close>, of the class
  \<open>Model\<close> that is not among the sources, returns the stable integer id of the agent,
  here \<open>ID\<close>.
\<close>

record RecipeReactor =
  ID :: Agent
  in_commod :: Commodity
  out_commod :: Commodity
  inventory_size :: Mass
  capacity :: Mass
  inventory :: "Material list"
  stocks :: "Material list"
  ordersWaiting :: "Message list"

text \<open>The sum of the masses of a queue: the loops of \<open>checkInventory\<close> and \<open>checkStocks\<close>.\<close>

fun totalMass :: "Material list \<Rightarrow> Mass" where
  "totalMass [] = 0"
| "totalMass (m # ms) = totMass m + totalMass ms"

text \<open>The data model's invariant on resources: every total quantity is at least 0.\<close>

definition nonneg :: "Material list \<Rightarrow> bool" where
  "nonneg ms = (\<forall>m\<in>set ms. 0 \<le> totMass m)"

definition checkInventory :: "RecipeReactor \<Rightarrow> Mass" where
  "checkInventory r = totalMass (inventory r)"

definition checkStocks :: "RecipeReactor \<Rightarrow> Mass" where
  "checkStocks r = totalMass (stocks r)"

text \<open>
  A method that may throw returns its outcome together with the reactor as the call leaves
  it: an exception does not roll the members back.
\<close>

text \<open>\<open>RecipeReactor::receiveMessage\<close>: \<open>push_front\<close> when the reactor is the supplier,
  else throw.\<close>

definition receiveMessage :: "RecipeReactor \<Rightarrow> Message \<Rightarrow> (error + unit) \<times> RecipeReactor" where
  "receiveMessage r msg =
     (if supplier (transaction msg) = Some (ID r)
      then (Inr (), r\<lparr>ordersWaiting := msg # ordersWaiting r\<rparr>)
      else (Inl NotSupplier, r))"

text \<open>\<open>RecipeReactor::receiveMaterial\<close>: \<open>push_back\<close> of every material of the manifest,
  in order, onto \<open>stocks\<close>.\<close>

fun receiveMaterial :: "RecipeReactor \<Rightarrow> Transaction \<Rightarrow> Material list \<Rightarrow> RecipeReactor" where
  "receiveMaterial r tx [] = r"
| "receiveMaterial r tx (thisMat # manifest) =
     receiveMaterial (r\<lparr>stocks := stocks r @ [thisMat]\<rparr>) tx manifest"

text \<open>
  The loop of \<open>RecipeReactor::sendMaterial\<close>, with its variables as arguments: the target
  \<open>trans.amount\<close>, the running \<open>newAmt\<close>, the manifest \<open>toSend\<close> and the inventory. It
  returns the outcome, the manifest and the inventory as the loop leaves them.
\<close>

function sendLoop ::
  "Mass \<Rightarrow> Mass \<Rightarrow> Material list \<Rightarrow> Material list
     \<Rightarrow> (error + unit) \<times> Material list \<times> Material list" where
  "sendLoop amt newAmt toSend [] = (Inr (), toSend, [])"
| "sendLoop amt newAmt toSend (m # invt) =
     (if amt > newAmt then
        (if totMass m \<le> amt - newAmt
         then sendLoop amt (newAmt + totMass m) (toSend @ [absorb (emptyLike m) m]) invt
         else (case extractMass m (amt - newAmt) of
                 Inl e \<Rightarrow> (Inl e, toSend, m # invt)
               | Inr (toAbsorb, m') \<Rightarrow>
                   sendLoop amt (newAmt + totMass toAbsorb)
                     (toSend @ [absorb (emptyLike m) toAbsorb]) (m' # invt)))
      else (Inr (), toSend, m # invt))"
  by pat_completeness auto
termination
proof (relation "measures [\<lambda>(amt, newAmt, toSend, invt). length invt,
                           \<lambda>(amt, newAmt, toSend, invt). if amt > newAmt then 1 else 0]")
qed (auto simp: extractMass_def split: if_splits)

text \<open>
  What \<open>sendMaterial\<close> hands to the requester: the call
  \<open>LI->getFacilityByID(trans.requesterID)->receiveMaterial(trans, toSend)\<close>. The registry
  \<open>LI\<close> is not among the sources, so the call is recorded as a delivery, to be applied to
  the requester with \<open>receiveMaterial\<close>.
\<close>

record Delivery =
  to_requester :: "Agent option"
  delivered_trans :: Transaction
  manifest :: "Material list"

text \<open>\<open>RecipeReactor::sendMaterial(trans, requester)\<close>. The body never reads its second
  parameter; the requester is taken from the transaction.\<close>

definition sendMaterial ::
  "RecipeReactor \<Rightarrow> Transaction \<Rightarrow> (error + Delivery) \<times> RecipeReactor" where
  "sendMaterial r tx =
     (if commod tx \<noteq> out_commod r then (Inl CommodityMismatch, r)
      else (case sendLoop (amount tx) 0 [] (inventory r) of
              (Inl e, toSend, invt') \<Rightarrow> (Inl e, r\<lparr>inventory := invt'\<rparr>)
            | (Inr u, toSend, invt') \<Rightarrow>
                (Inr \<lparr>to_requester = requester tx, delivered_trans = tx,
                      manifest = toSend\<rparr>,
                 r\<lparr>inventory := invt'\<rparr>)))"

text \<open>
  \<open>RecipeReactor::handleTick(time)\<close>; \<open>time\<close> is not read. It changes no member; it
  creates a request (or none) that it passes to its institution and an offer that it sends.
  The result is the pair of the two.
\<close>

definition handleTick :: "RecipeReactor \<Rightarrow> Message option \<times> Message" where
  "handleTick r =
     (let minAmt = 0;
          invt = checkInventory r;
          sto = checkStocks r;
          space = inventory_size r - invt - sto;
          commod_price = 0;
          request =
            (if space = 0 then None
             else if space < capacity r then
               Some (newMessage UP_MSG (in_commod r) (- space) minAmt commod_price
                       (ID r) (commod_market (in_commod r)))
             else if space \<ge> capacity r then
               Some (newMessage UP_MSG (in_commod r) (- (capacity r - sto)) minAmt commod_price
                       (ID r) (commod_market (in_commod r)))
             else None);
          possInv = invt + capacity r;
          offer_amt = (if possInv < inventory_size r then possInv else inventory_size r);
          min_amt = 0
      in (request,
          newMessage UP_MSG (out_commod r) offer_amt min_amt commod_price
            (ID r) (commod_market (out_commod r))))"

text \<open>The free space \<open>handleTick\<close> computes: \<open>inventory_size - inv - sto\<close>.\<close>

definition free_space :: "RecipeReactor \<Rightarrow> Mass" where
  "free_space r = inventory_size r - checkInventory r - checkStocks r"

text \<open>
  The first loop of \<open>RecipeReactor::handleTock\<close>: the target \<open>capacity\<close>, the running
  \<open>complete\<close> (here \<open>completed\<close>), the stocks and the inventory. It returns the outcome,
  the stocks and the inventory as the loop leaves them.
\<close>

function processLoop ::
  "Mass \<Rightarrow> Mass \<Rightarrow> Material list \<Rightarrow> Material list
     \<Rightarrow> (error + unit) \<times> Material list \<times> Material list" where
  "processLoop cap completed [] invt = (Inr (), [], invt)"
| "processLoop cap completed (m # sto) invt =
     (if cap > completed then
        (if totMass m \<le> cap - completed
         then processLoop cap (completed + totMass m) sto (invt @ [absorb (emptyLike m) m])
         else (case extractMass m (cap - completed) of
                 Inl e \<Rightarrow> (Inl e, m # sto, invt)
               | Inr (toAbsorb, m') \<Rightarrow>
                   processLoop cap (completed + totMass toAbsorb) (m' # sto)
                     (invt @ [absorb (emptyLike m) toAbsorb])))
      else (Inr (), m # sto, invt))"
  by pat_completeness auto
termination
proof (relation "measures [\<lambda>(cap, completed, sto, invt). length sto,
                           \<lambda>(cap, completed, sto, invt). if cap > completed then 1 else 0]")
qed (auto simp: extractMass_def split: if_splits)

text \<open>
  The second loop of \<open>handleTock\<close>: while \<open>ordersWaiting\<close> is not empty, ship the front
  order and pop it. The deliveries made are collected in order. When \<open>sendMaterial\<close> throws,
  the order is still at the front.
\<close>

fun shipOrders ::
  "Message list \<Rightarrow> RecipeReactor \<Rightarrow> Delivery list
     \<Rightarrow> (error + unit) \<times> RecipeReactor \<times> Delivery list" where
  "shipOrders [] r ds = (Inr (), r\<lparr>ordersWaiting := []\<rparr>, ds)"
| "shipOrders (order # rest) r ds =
     (case sendMaterial (r\<lparr>ordersWaiting := order # rest\<rparr>) (transaction order) of
        (Inl e, r') \<Rightarrow> (Inl e, r', ds)
      | (Inr d, r') \<Rightarrow> shipOrders rest (r'\<lparr>ordersWaiting := rest\<rparr>) (ds @ [d]))"

text \<open>\<open>RecipeReactor::handleTock\<close>: convert stocks at the rate the capacity allows, then
  fill the waiting orders.\<close>

definition handleTock :: "RecipeReactor \<Rightarrow> (error + unit) \<times> RecipeReactor \<times> Delivery list" where
  "handleTock r =
     (case processLoop (capacity r) 0 (stocks r) (inventory r) of
        (Inl e, sto', invt') \<Rightarrow> (Inl e, r\<lparr>inventory := invt', stocks := sto'\<rparr>, [])
      | (Inr u, sto', invt') \<Rightarrow>
          shipOrders (ordersWaiting r) (r\<lparr>inventory := invt', stocks := sto'\<rparr>) [])"

text \<open>Orders arriving one after the other, each handed to \<open>receiveMessage\<close>; the first
  throw ends the sequence.\<close>

fun receiveMessages :: "RecipeReactor \<Rightarrow> Message list \<Rightarrow> (error + unit) \<times> RecipeReactor" where
  "receiveMessages r [] = (Inr (), r)"
| "receiveMessages r (msg # msgs) =
     (case receiveMessage r msg of
        (Inl e, r') \<Rightarrow> (Inl e, r')
      | (Inr u, r') \<Rightarrow> receiveMessages r' msgs)"

section \<open>One reactor during a simulation\<close>


text \<open>The quantity the request of \<open>handleTick\<close> asks for, \<open>requestAmt\<close>: the negation of the
  amount the message carries, and 0 when no request is made.\<close>

definition requested :: "RecipeReactor \<Rightarrow> Mass" where
  "requested r = (case fst (handleTick r) of None \<Rightarrow> 0 | Some request \<Rightarrow> - amount (transaction request))"

text \<open>
  Modelled from the spec: the driver loop and the market, which call the reactor, are not
  among the sources. What happens to one reactor during a simulation is a sequence of
  events: its \<open>handleTick\<close>, its \<open>handleTock\<close>, the arrival of an order
  (\<open>receiveMessage\<close>) and a delivery (\<open>receiveMaterial\<close>). A request is matched for at most
  what it asks ("matched amount \<open>\<le>\<close> min(offered, |requested|)"), so a delivery carries
  resources of quantity at least 0 whose total is at most what the last tick requested and
  has not been delivered yet. The state is the reactor together with that open request;
  \<open>step\<close> is \<open>None\<close> for a delivery that exceeds it.
\<close>

datatype event = Tick | Tock | Deliver Transaction "Material list" | Arrive Message

fun step :: "RecipeReactor \<times> Mass \<Rightarrow> event \<Rightarrow> (RecipeReactor \<times> Mass) option" where
  "step (r, open_request) Tick = Some (r, requested r)"
| "step (r, open_request) Tock = Some (fst (snd (handleTock r)), open_request)"
| "step (r, open_request) (Deliver tx ms) =
     (if nonneg ms \<and> totalMass ms \<le> open_request
      then Some (receiveMaterial r tx ms, open_request - totalMass ms)
      else None)"
| "step (r, open_request) (Arrive msg) = Some (snd (receiveMessage r msg), open_request)"

fun run :: "RecipeReactor \<times> Mass \<Rightarrow> event list \<Rightarrow> (RecipeReactor \<times> Mass) option" where
  "run s [] = Some s"
| "run s (ev # evs) = (case step s ev of None \<Rightarrow> None | Some s' \<Rightarrow> run s' evs)"


section \<open>Message routing\<close>

text \<open>
  Message.cpp is not among the sources: Message.h declares \<open>setNextDest\<close>, \<open>sendOn\<close> and
  \<open>reverseDirection\<close> and documents them. The three operations are modelled from the
  specification. \<open>sendOn\<close> returns the message as the send leaves it and the agent whose
  \<open>receive\<close> it invokes, if any.
\<close>

text \<open>
  Modelled from the spec: \<open>set_next_dest(agent)\<close> records the next UP hop. Has no effect
  when direction \<open>\<noteq>\<close> UP. Fails with \<open>InvalidRecipient\<close> if \<open>agent\<close> equals the current
  holder.
\<close>

definition setNextDest :: "Message \<Rightarrow> Agent \<Rightarrow> error + Message" where
  "setNextDest msg next_stop =
     (if dir msg \<noteq> UP_MSG then Inr msg
      else if current_owner msg = Some next_stop then Inl InvalidRecipient
      else Inr (msg\<lparr>next_dest := Some next_stop\<rparr>))"

text \<open>
  Modelled from the spec: \<open>send_on()\<close> forwards the message per the current direction.
  UP: fails with \<open>NoDestination\<close> if \<open>next_dest\<close> is unset; fails with \<open>Circular\<close> if
  \<open>next_dest\<close> is the originator; otherwise pushes \<open>current_holder\<close> onto the path stack,
  sets \<open>current_holder := next_dest\<close>, clears \<open>next_dest\<close> and invokes \<open>receive\<close> on the
  new holder.
  DOWN: fails with \<open>TerminalMessage\<close> if the path stack is empty and direction is DONE;
  otherwise pops the top of the path stack, sets \<open>current_holder := popped\<close> and invokes
  \<open>receive\<close> on it; if after this pop the stack is empty, direction transitions to DONE.
  A send with an empty path stack on DOWN transitions to DONE.
  DONE: fails with \<open>TerminalMessage\<close>.
\<close>

definition sendOn :: "Message \<Rightarrow> error + (Message \<times> Agent option)" where
  "sendOn msg =
     (case dir msg of
        UP_MSG \<Rightarrow>
          (case next_dest msg of
             None \<Rightarrow> Inl NoDestination
           | Some d \<Rightarrow>
               if d = sender msg then Inl Circular
               else Inr (msg\<lparr>path_stack :=
                               (case current_owner msg of
                                  None \<Rightarrow> path_stack msg
                                | Some h \<Rightarrow> h # path_stack msg),
                             current_owner := Some d,
                             next_dest := None\<rparr>,
                         Some d))
      | DOWN_MSG \<Rightarrow>
          (if path_stack msg = [] \<and> dir msg = NONE_MSG then Inl TerminalMessage
           else (case path_stack msg of
                   [] \<Rightarrow> Inr (msg\<lparr>dir := NONE_MSG\<rparr>, None)
                 | popped # rest \<Rightarrow>
                     Inr (msg\<lparr>path_stack := rest,
                               current_owner := Some popped,
                               dir := (if rest = [] then NONE_MSG else DOWN_MSG)\<rparr>,
                          Some popped)))
      | NONE_MSG \<Rightarrow> Inl TerminalMessage)"

text \<open>Modelled from the spec: \<open>reverse_direction()\<close>: UP to DOWN or DOWN to UP.\<close>

definition reverseDirection :: "Message \<Rightarrow> Message" where
  "reverseDirection msg =
     (case dir msg of
        UP_MSG \<Rightarrow> msg\<lparr>dir := DOWN_MSG\<rparr>
      | DOWN_MSG \<Rightarrow> msg\<lparr>dir := UP_MSG\<rparr>
      | NONE_MSG \<Rightarrow> msg)"

text \<open>
  The UP leg: each holder in turn designates the next stop and sends the message on
  (\<open>msg->setNextDest(next_stop); msg->sendOn()\<close>, Message.h). The result is the message
  at the end of the leg and the sequence of holders it passed through, that is, the agents
  that sent it on, in order.
\<close>

fun sendUp :: "Message \<Rightarrow> Agent list \<Rightarrow> error + (Message \<times> Agent list)" where
  "sendUp msg [] = Inr (msg, [])"
| "sendUp msg (next_stop # stops) =
     (case setNextDest msg next_stop of
        Inl e \<Rightarrow> Inl e
      | Inr msg1 \<Rightarrow>
          (case sendOn msg1 of
             Inl e \<Rightarrow> Inl e
           | Inr (msg2, rcv) \<Rightarrow>
               (case sendUp msg2 stops of
                  Inl e \<Rightarrow> Inl e
                | Inr (msg3, passed) \<Rightarrow>
                    Inr (msg3, (case current_owner msg of None \<Rightarrow> [] | Some h \<Rightarrow> [h]) @ passed))))"

text \<open>
  The DOWN leg: \<open>sendOn\<close> is called again and again while the direction is DOWN. The result
  is the message at the end and the sequence of agents whose \<open>receive\<close> was invoked.
\<close>

function driveDown :: "Message \<Rightarrow> error + (Message \<times> Agent list)" where
  "driveDown msg =
     (if dir msg = DOWN_MSG then
        (case sendOn msg of
           Inl e \<Rightarrow> Inl e
         | Inr (msg1, rcv) \<Rightarrow>
             (case driveDown msg1 of
                Inl e \<Rightarrow> Inl e
              | Inr (msg2, rcvs) \<Rightarrow>
                  Inr (msg2, (case rcv of None \<Rightarrow> [] | Some a \<Rightarrow> [a]) @ rcvs)))
      else Inr (msg, []))"
  by pat_completeness auto
termination
proof (relation "measure (\<lambda>msg. if dir msg = DOWN_MSG then Suc (length (path_stack msg)) else 0)")
qed (auto simp: sendOn_def split: list.splits if_splits)

section \<open>Env\<close>

text \<open>
  The process environment: \<open>getenv\<close> returns a null pointer (\<open>None\<close>) for a variable that
  is not set, else its value.
\<close>

type_synonym environ = "string \<rightharpoonup> string"

definition getenv :: "environ \<Rightarrow> string \<Rightarrow> string option" where
  "getenv env varname = env varname"

text \<open>
  What a call of \<open>checkEnv\<close> does: return a string, throw \<open>GenException\<close> with a message,
  or run into undefined behaviour (\<open>strlen\<close> applied to a null pointer).
\<close>

datatype env_outcome = Returned string | GenException string | UndefinedBehaviour

text \<open>
  \<open>Env::checkEnv\<close>. The condition is
  \<open>(strlen(getenv(var)) > 0) && (getenv(var) != NULL)\<close>: \<open>strlen\<close> is evaluated first, on
  whatever \<open>getenv\<close> returns.
\<close>

definition checkEnv :: "environ \<Rightarrow> string \<Rightarrow> env_outcome" where
  "checkEnv env varname =
     (case getenv env varname of
        None \<Rightarrow> UndefinedBehaviour
      | Some s \<Rightarrow>
          if length s > 0 \<and> getenv env varname \<noteq> None then Returned s
          else GenException (''Environment variable '' @ varname @ '' not set.''))"

section \<open>Example data\<close>

definition kg :: "Mass \<Rightarrow> Material" where
  "kg q = \<lparr>units = ''kg'', mat_name = ''fuel'', totMass = q\<rparr>"

definition fresh_fuel :: Commodity where
  "fresh_fuel = \<lparr>commod_name = ''fresh_fuel'', commod_market = 100\<rparr>"

definition used_fuel :: Commodity where
  "used_fuel = \<lparr>commod_name = ''used_fuel'', commod_market = 101\<rparr>"

text \<open>A reactor with id 7 that turns fresh fuel into used fuel.\<close>

definition reactor :: "Mass \<Rightarrow> Mass \<Rightarrow> Material list \<Rightarrow> Material list \<Rightarrow> RecipeReactor" where
  "reactor sz cap invt sto =
     \<lparr>ID = 7, in_commod = fresh_fuel, out_commod = used_fuel, inventory_size = sz,
      capacity = cap, inventory = invt, stocks = sto, ordersWaiting = []\<rparr>"

text \<open>An order for \<open>q\<close> of commodity \<open>c\<close>, matched by the market: supplier \<open>s\<close>,
  requester \<open>rq\<close>.\<close>

definition order :: "Commodity \<Rightarrow> Mass \<Rightarrow> Agent \<Rightarrow> Agent \<Rightarrow> Message" where
  "order c q s rq =
     (createMessage s 101
        \<lparr>commod = c, amount = q, minimum = 0, price = 0,
         resource = None, supplier = Some s, requester = Some rq\<rparr>)\<lparr>dir := DOWN_MSG\<rparr>"

text \<open>A transaction for 40 of used fuel, and a message of originator 1 carrying it: held by
  institution 2 after one hop, designated by 2 to go back to 1, and at the market 9 after the
  hops 1 to 2, 2 to 3 and 3 to 9.\<close>

definition tx0 :: Transaction where
  "tx0 = \<lparr>commod = used_fuel, amount = 40, minimum = 0, price = 0,
          resource = None, supplier = None, requester = None\<rparr>"

definition at_institution :: Message where
  "at_institution = \<lparr>dir = UP_MSG, transaction = tx0, sender = 1, recipient = 9,
                     path_stack = [1], next_dest = None, current_owner = Some 2\<rparr>"

definition back_to_sender :: Message where
  "back_to_sender = at_institution\<lparr>next_dest := Some 1\<rparr>"

definition at_market :: Message where
  "at_market = \<lparr>dir = UP_MSG, transaction = tx0, sender = 1, recipient = 9,
                path_stack = [3, 2, 1], next_dest = None, current_owner = Some 9\<rparr>"

declare driveDown.simps [simp del]

section \<open>Quantities\<close>

lemma totalMass_append: "totalMass (xs @ ys) = totalMass xs + totalMass ys"
  by (induction xs) auto

lemma totalMass_nonneg: "\<forall>m\<in>set ms. 0 \<le> totMass m \<Longrightarrow> 0 \<le> totalMass ms"
  by (induction ms) auto

lemma absorb_emptyLike: "absorb (emptyLike m) m = m"
  by (simp add: absorb_def emptyLike_def)

lemma absorb_emptyLike_part: "absorb (emptyLike m) (m\<lparr>totMass := a\<rparr>) = m\<lparr>totMass := a\<rparr>"
  by (simp add: absorb_def emptyLike_def)

lemma extractMass_within:
  "0 \<le> a \<Longrightarrow> a \<le> totMass m \<Longrightarrow>
   extractMass m a = Inr (m\<lparr>totMass := a\<rparr>, m\<lparr>totMass := totMass m - a\<rparr>)"
  by (simp add: extractMass_def)



section \<open>The loop of sendMaterial\<close>

text \<open>One step of the loop at a time: it stops, takes the front resource whole, or splits
  it and stops.\<close>

lemma sendLoop_stop: "\<not> amt > newAmt \<Longrightarrow> sendLoop amt newAmt toSend invt = (Inr (), toSend, invt)"
  by (cases invt) auto

lemma sendLoop_take:
  "amt > newAmt \<Longrightarrow> totMass m \<le> amt - newAmt \<Longrightarrow>
   sendLoop amt newAmt toSend (m # invt) = sendLoop amt (newAmt + totMass m) (toSend @ [m]) invt"
  by (simp add: absorb_emptyLike)

lemma sendLoop_split:
  "amt > newAmt \<Longrightarrow> \<not> totMass m \<le> amt - newAmt \<Longrightarrow>
   sendLoop amt newAmt toSend (m # invt) =
     (Inr (), toSend @ [m\<lparr>totMass := amt - newAmt\<rparr>],
      m\<lparr>totMass := totMass m - (amt - newAmt)\<rparr> # invt)"
  by (simp add: extractMass_def absorb_emptyLike_part)

lemma sendLoop_ok: "fst (sendLoop amt newAmt toSend invt) = Inr ()"
proof (induction invt arbitrary: newAmt toSend)
  case Nil
  show ?case by simp
next
  case (Cons m invt)
  show ?case
  proof (cases "amt > newAmt")
    case False
    then show ?thesis by (simp add: sendLoop_stop del: sendLoop.simps)
  next
    case True
    show ?thesis
    proof (cases "totMass m \<le> amt - newAmt")
      case True
      with \<open>amt > newAmt\<close> show ?thesis
        by (simp add: sendLoop_take Cons.IH del: sendLoop.simps)
    next
      case False
      with \<open>amt > newAmt\<close> show ?thesis
        by (simp add: sendLoop_split del: sendLoop.simps)
    qed
  qed
qed

lemma sendLoop_total:
  "\<forall>m\<in>set invt. 0 \<le> totMass m \<Longrightarrow>
   totalMass (fst (snd (sendLoop amt newAmt toSend invt))) =
     totalMass toSend + min (max (amt - newAmt) 0) (totalMass invt)"
proof (induction invt arbitrary: newAmt toSend)
  case Nil
  show ?case by simp
next
  case (Cons m invt)
  have nn: "0 \<le> totalMass invt" "0 \<le> totMass m"
    using Cons.prems by (simp_all add: totalMass_nonneg)
  show ?case
  proof (cases "amt > newAmt")
    case False
    with nn show ?thesis by (simp add: sendLoop_stop del: sendLoop.simps)
  next
    case True
    show ?thesis
    proof (cases "totMass m \<le> amt - newAmt")
      case True
      have "totalMass (fst (snd (sendLoop amt (newAmt + totMass m) (toSend @ [m]) invt))) =
              totalMass (toSend @ [m]) + min (max (amt - (newAmt + totMass m)) 0) (totalMass invt)"
        using Cons.prems by (intro Cons.IH) simp
      with True \<open>amt > newAmt\<close> nn show ?thesis
        by (simp add: sendLoop_take totalMass_append min_def max_def del: sendLoop.simps)
    next
      case False
      with \<open>amt > newAmt\<close> nn show ?thesis
        by (simp add: sendLoop_split totalMass_append min_def max_def del: sendLoop.simps)
    qed
  qed
qed

lemma sendLoop_conserves:
  "totalMass (fst (snd (sendLoop amt newAmt toSend invt))) +
   totalMass (snd (snd (sendLoop amt newAmt toSend invt))) =
     totalMass toSend + totalMass invt"
proof (induction invt arbitrary: newAmt toSend)
  case Nil
  show ?case by simp
next
  case (Cons m invt)
  show ?case
  proof (cases "amt > newAmt")
    case False
    then show ?thesis by (simp add: sendLoop_stop del: sendLoop.simps)
  next
    case True
    show ?thesis
    proof (cases "totMass m \<le> amt - newAmt")
      case True
      with \<open>amt > newAmt\<close> show ?thesis
        by (simp add: sendLoop_take Cons.IH totalMass_append del: sendLoop.simps)
    next
      case False
      with \<open>amt > newAmt\<close> show ?thesis
        by (simp add: sendLoop_split totalMass_append del: sendLoop.simps)
    qed
  qed
qed

text \<open>The shape of the result: \<open>n\<close> whole resources from the front, then at most one
  split one.\<close>

lemma sendLoop_shape:
  "\<exists>n\<le>length invt.
     (sendLoop amt newAmt toSend invt = (Inr (), toSend @ take n invt, drop n invt) \<and>
      (n = length invt \<or> amt \<le> newAmt + totalMass (take n invt))) \<or>
     (n < length invt \<and>
      newAmt + totalMass (take n invt) < amt \<and>
      amt < newAmt + totalMass (take (Suc n) invt) \<and>
      sendLoop amt newAmt toSend invt =
        (Inr (),
         toSend @ take n invt @ [(invt ! n)\<lparr>totMass := amt - newAmt - totalMass (take n invt)\<rparr>],
         (invt ! n)\<lparr>totMass := totMass (invt ! n) - (amt - newAmt - totalMass (take n invt))\<rparr>
           # drop (Suc n) invt))"
proof (induction invt arbitrary: newAmt toSend)
  case Nil
  show ?case by simp
next
  case (Cons m invt)
  show ?case
  proof (cases "amt > newAmt")
    case False
    then have "sendLoop amt newAmt toSend (m # invt) = (Inr (), toSend @ take 0 (m # invt), drop 0 (m # invt)) \<and>
      (0 = length (m # invt) \<or> amt \<le> newAmt + totalMass (take 0 (m # invt)))"
      by (simp add: sendLoop_stop del: sendLoop.simps)
    then show ?thesis by blast
  next
    case True
    show ?thesis
    proof (cases "totMass m \<le> amt - newAmt")
      case True
      note step = sendLoop_take [OF \<open>amt > newAmt\<close> True]
      from Cons.IH [of "newAmt + totMass m" "toSend @ [m]"]
      obtain n where n: "n \<le> length invt"
        "(sendLoop amt (newAmt + totMass m) (toSend @ [m]) invt = (Inr (), (toSend @ [m]) @ take n invt, drop n invt) \<and>
          (n = length invt \<or> amt \<le> newAmt + totMass m + totalMass (take n invt))) \<or>
         (n < length invt \<and>
          newAmt + totMass m + totalMass (take n invt) < amt \<and>
          amt < newAmt + totMass m + totalMass (take (Suc n) invt) \<and>
          sendLoop amt (newAmt + totMass m) (toSend @ [m]) invt =
            (Inr (),
             (toSend @ [m]) @ take n invt @ [(invt ! n)\<lparr>totMass := amt - (newAmt + totMass m) - totalMass (take n invt)\<rparr>],
             (invt ! n)\<lparr>totMass := totMass (invt ! n) - (amt - (newAmt + totMass m) - totalMass (take n invt))\<rparr>
               # drop (Suc n) invt))"
        by blast
      have arith: "amt - (newAmt + totMass m) - totalMass (take n invt) =
                   amt - newAmt - (totMass m + totalMass (take n invt))"
        by simp
      from n(2) have
        "(sendLoop amt newAmt toSend (m # invt) =
            (Inr (), toSend @ take (Suc n) (m # invt), drop (Suc n) (m # invt)) \<and>
          (Suc n = length (m # invt) \<or> amt \<le> newAmt + totalMass (take (Suc n) (m # invt)))) \<or>
         (Suc n < length (m # invt) \<and>
          newAmt + totalMass (take (Suc n) (m # invt)) < amt \<and>
          amt < newAmt + totalMass (take (Suc (Suc n)) (m # invt)) \<and>
          sendLoop amt newAmt toSend (m # invt) =
            (Inr (),
             toSend @ take (Suc n) (m # invt) @
               [((m # invt) ! Suc n)\<lparr>totMass := amt - newAmt - totalMass (take (Suc n) (m # invt))\<rparr>],
             ((m # invt) ! Suc n)\<lparr>totMass := totMass ((m # invt) ! Suc n) -
                 (amt - newAmt - totalMass (take (Suc n) (m # invt)))\<rparr>
               # drop (Suc (Suc n)) (m # invt)))"
        unfolding step by (simp add: arith add.assoc del: sendLoop.simps)
      moreover have "Suc n \<le> length (m # invt)" using n(1) by simp
      ultimately show ?thesis by blast
    next
      case False
      with \<open>amt > newAmt\<close> have
        "0 < length (m # invt) \<and>
         newAmt + totalMass (take 0 (m # invt)) < amt \<and>
         amt < newAmt + totalMass (take (Suc 0) (m # invt)) \<and>
         sendLoop amt newAmt toSend (m # invt) =
           (Inr (),
            toSend @ take 0 (m # invt) @
              [((m # invt) ! 0)\<lparr>totMass := amt - newAmt - totalMass (take 0 (m # invt))\<rparr>],
            ((m # invt) ! 0)\<lparr>totMass := totMass ((m # invt) ! 0) -
                (amt - newAmt - totalMass (take 0 (m # invt)))\<rparr>
              # drop (Suc 0) (m # invt))"
        by (simp add: sendLoop_split del: sendLoop.simps)
      then show ?thesis by blast
    qed
  qed
qed




section \<open>The conversion loop of handleTock\<close>

lemma processLoop_stop:
  "\<not> cap > completed \<Longrightarrow> processLoop cap completed sto invt = (Inr (), sto, invt)"
  by (cases sto) auto

lemma processLoop_take:
  "cap > completed \<Longrightarrow> totMass m \<le> cap - completed \<Longrightarrow>
   processLoop cap completed (m # sto) invt =
     processLoop cap (completed + totMass m) sto (invt @ [m])"
  by (simp add: absorb_emptyLike)

lemma processLoop_split:
  "cap > completed \<Longrightarrow> \<not> totMass m \<le> cap - completed \<Longrightarrow>
   processLoop cap completed (m # sto) invt =
     (Inr (), m\<lparr>totMass := totMass m - (cap - completed)\<rparr> # sto,
      invt @ [m\<lparr>totMass := cap - completed\<rparr>])"
  by (simp add: extractMass_def absorb_emptyLike_part)

lemma processLoop_cases:
  assumes "\<And>completed invt. P completed [] invt (Inr (), [], invt)"
    and "\<And>completed m sto invt. \<not> cap > completed \<Longrightarrow> P completed (m # sto) invt (Inr (), m # sto, invt)"
    and "\<And>completed m sto invt. cap > completed \<Longrightarrow> totMass m \<le> cap - completed \<Longrightarrow>
           P (completed + totMass m) sto (invt @ [m]) (processLoop cap (completed + totMass m) sto (invt @ [m])) \<Longrightarrow>
           P completed (m # sto) invt (processLoop cap (completed + totMass m) sto (invt @ [m]))"
    and "\<And>completed m sto invt. cap > completed \<Longrightarrow> \<not> totMass m \<le> cap - completed \<Longrightarrow>
           P completed (m # sto) invt (Inr (), m\<lparr>totMass := totMass m - (cap - completed)\<rparr> # sto,
      invt @ [m\<lparr>totMass := cap - completed\<rparr>])"
  shows "P completed sto invt (processLoop cap completed sto invt)"
proof (induction sto arbitrary: completed invt)
  case Nil
  show ?case using assms(1) by simp
next
  case (Cons m sto)
  show ?case
  proof (cases "cap > completed")
    case False
    then show ?thesis using assms(2) by (simp add: processLoop_stop del: processLoop.simps)
  next
    case True
    show ?thesis
    proof (cases "totMass m \<le> cap - completed")
      case True
      with \<open>cap > completed\<close> assms(3) Cons.IH show ?thesis
        by (simp add: processLoop_take del: processLoop.simps)
    next
      case False
      with \<open>cap > completed\<close> assms(4) show ?thesis
        by (simp add: processLoop_split del: processLoop.simps)
    qed
  qed
qed

lemma processLoop_ok: "fst (processLoop cap completed sto invt) = Inr ()"
  by (rule processLoop_cases [where P = "\<lambda>completed sto invt res. fst res = Inr ()"]) simp_all



section \<open>Shipping\<close>

text \<open>\<open>sendMaterial\<close> throws only for a commodity that is not \<open>out_commod\<close>.\<close>

lemma sendMaterial_sends:
  assumes "commod tx = out_commod r"
  shows "sendMaterial r tx =
           (Inr \<lparr>to_requester = requester tx, delivered_trans = tx,
                 manifest = fst (snd (sendLoop (amount tx) 0 [] (inventory r)))\<rparr>,
            r\<lparr>inventory := snd (snd (sendLoop (amount tx) 0 [] (inventory r)))\<rparr>)"
proof -
  obtain res toSend invt' where eq: "sendLoop (amount tx) 0 [] (inventory r) = (res, toSend, invt')"
    by (cases "sendLoop (amount tx) 0 [] (inventory r)") auto
  with sendLoop_ok [of "amount tx" 0 "[]" "inventory r"] have "res = Inr ()" by simp
  with eq assms show ?thesis by (simp add: sendMaterial_def)
qed

lemma sendMaterial_mismatch:
  "commod tx \<noteq> out_commod r \<Longrightarrow> sendMaterial r tx = (Inl CommodityMismatch, r)"
  by (simp add: sendMaterial_def)



lemma receiveMessages_all:
  "\<forall>msg\<in>set msgs. supplier (transaction msg) = Some (ID r) \<Longrightarrow>
   receiveMessages r msgs = (Inr (), r\<lparr>ordersWaiting := rev msgs @ ordersWaiting r\<rparr>)"
proof (induction msgs arbitrary: r)
  case Nil
  show ?case by simp
next
  case (Cons msg msgs)
  let ?r1 = "r\<lparr>ordersWaiting := msg # ordersWaiting r\<rparr>"
  from Cons.prems have "receiveMessage r msg = (Inr (), ?r1)"
    by (simp add: receiveMessage_def)
  moreover have "receiveMessages ?r1 msgs = (Inr (), ?r1\<lparr>ordersWaiting := rev msgs @ ordersWaiting ?r1\<rparr>)"
    using Cons.prems by (intro Cons.IH) simp
  ultimately show ?case by simp
qed

lemma shipOrders_prefix:
  "out_commod r = c \<Longrightarrow>
   \<exists>r' ds'. shipOrders orders r ds =
              ((if \<forall>ord\<in>set orders. commod (transaction ord) = c then Inr ()
                else Inl CommodityMismatch), r', ds @ ds') \<and>
            map delivered_trans ds' = takeWhile (\<lambda>t. commod t = c) (map transaction orders) \<and>
            ordersWaiting r' = dropWhile (\<lambda>ord. commod (transaction ord) = c) orders"
proof (induction orders arbitrary: r ds)
  case Nil
  show ?case by simp
next
  case (Cons ord orders)
  let ?r0 = "r\<lparr>ordersWaiting := ord # orders\<rparr>"
  show ?case
  proof (cases "commod (transaction ord) = c")
    case False
    with Cons.prems have "sendMaterial ?r0 (transaction ord) = (Inl CommodityMismatch, ?r0)"
      by (simp add: sendMaterial_mismatch)
    with False show ?thesis by simp
  next
    case True
    let ?loop = "sendLoop (amount (transaction ord)) 0 [] (inventory ?r0)"
    let ?d = "\<lparr>to_requester = requester (transaction ord), delivered_trans = transaction ord,
               manifest = fst (snd ?loop)\<rparr>"
    let ?r1 = "?r0\<lparr>inventory := snd (snd ?loop)\<rparr>"
    have "commod (transaction ord) = out_commod ?r0" using True Cons.prems by simp
    then have send: "sendMaterial ?r0 (transaction ord) = (Inr ?d, ?r1)"
      by (rule sendMaterial_sends)
    have "out_commod (?r1\<lparr>ordersWaiting := orders\<rparr>) = c" using Cons.prems by simp
    from Cons.IH [OF this, of "ds @ [?d]"]
    obtain r' ds' where rest:
      "shipOrders orders (?r1\<lparr>ordersWaiting := orders\<rparr>) (ds @ [?d]) =
         ((if \<forall>ord\<in>set orders. commod (transaction ord) = c then Inr ()
           else Inl CommodityMismatch), r', (ds @ [?d]) @ ds')"
      "map delivered_trans ds' = takeWhile (\<lambda>t. commod t = c) (map transaction orders)"
      "ordersWaiting r' = dropWhile (\<lambda>ord. commod (transaction ord) = c) orders"
      by blast
    have "shipOrders (ord # orders) r ds =
            ((if \<forall>ord\<in>set (ord # orders). commod (transaction ord) = c then Inr ()
              else Inl CommodityMismatch), r', ds @ (?d # ds'))"
      using send rest(1) True by simp
    moreover have "map delivered_trans (?d # ds') =
                     takeWhile (\<lambda>t. commod t = c) (map transaction (ord # orders))"
      using rest(2) True by simp
    moreover have "ordersWaiting r' = dropWhile (\<lambda>ord. commod (transaction ord) = c) (ord # orders)"
      using rest(3) True by simp
    ultimately show ?thesis by blast
  qed
qed

lemma shipOrders_from_empty:
  assumes "out_commod r = c"
  shows "\<exists>r' ds. shipOrders orders r [] =
              ((if \<forall>ord\<in>set orders. commod (transaction ord) = c then Inr ()
                else Inl CommodityMismatch), r', ds) \<and>
            map delivered_trans ds = takeWhile (\<lambda>t. commod t = c) (map transaction orders) \<and>
            ordersWaiting r' = dropWhile (\<lambda>ord. commod (transaction ord) = c) orders"
proof -
  from shipOrders_prefix [OF assms, of orders "[]"] obtain r' ds' where
    "shipOrders orders r [] =
       ((if \<forall>ord\<in>set orders. commod (transaction ord) = c then Inr ()
         else Inl CommodityMismatch), r', [] @ ds')"
    "map delivered_trans ds' = takeWhile (\<lambda>t. commod t = c) (map transaction orders)"
    "ordersWaiting r' = dropWhile (\<lambda>ord. commod (transaction ord) = c) orders"
    by blast
  moreover have "[] @ ds' = ds'" by simp
  ultimately show ?thesis by (simp only:) blast
qed



section \<open>Receiving and filling orders\<close>

text \<open>
  C8. For every message delivered to a RecipeReactor's \<open>receiveMessage\<close>: if the
  transaction's supplier is this facility, the message is put into \<open>ordersWaiting\<close> (at the
  front) and no error is raised; otherwise \<open>receiveMessage\<close> fails with \<open>NotSupplier\<close>
  and \<open>ordersWaiting\<close>, as every other member, is unchanged.
\<close>

theorem receiveMessage_supplier_or_throw:
  "(supplier (transaction msg) = Some (ID r) \<longrightarrow>
      receiveMessage r msg = (Inr (), r\<lparr>ordersWaiting := msg # ordersWaiting r\<rparr>)) \<and>
   (supplier (transaction msg) \<noteq> Some (ID r) \<longrightarrow>
      fst (receiveMessage r msg) = Inl NotSupplier \<and>
      ordersWaiting (snd (receiveMessage r msg)) = ordersWaiting r \<and>
      snd (receiveMessage r msg) = r)"
  by (simp add: receiveMessage_def)

theorem receiveMessage_supplier_or_throw_witness:
  "supplier (transaction (order used_fuel 40 7 9)) = Some (ID (reactor 100 10 [kg 30] [])) \<and>
   receiveMessage (reactor 100 10 [kg 30] []) (order used_fuel 40 7 9) =
     (Inr (), (reactor 100 10 [kg 30] [])\<lparr>ordersWaiting := [order used_fuel 40 7 9]\<rparr>) \<and>
   supplier (transaction (order used_fuel 40 8 9)) \<noteq> Some (ID (reactor 100 10 [kg 30] [])) \<and>
   fst (receiveMessage (reactor 100 10 [kg 30] []) (order used_fuel 40 8 9)) = Inl NotSupplier \<and>
   ordersWaiting (snd (receiveMessage (reactor 100 10 [kg 30] []) (order used_fuel 40 8 9))) = []"
  using receiveMessage_supplier_or_throw [of "order used_fuel 40 7 9" "reactor 100 10 [kg 30] []"]
        receiveMessage_supplier_or_throw [of "order used_fuel 40 8 9" "reactor 100 10 [kg 30] []"]
  by (simp add: order_def reactor_def createMessage_def)

text \<open>
  C9. Orders are filled in reverse order of arrival. When the messages \<open>msgs\<close> arrive one
  after the other, each naming the reactor as supplier, \<open>receiveMessage\<close> pushes each onto
  the front of \<open>ordersWaiting\<close>; \<open>handleTock\<close> then ships from the front, so the
  transactions are delivered latest first, followed by those of the orders that were
  waiting already. \<open>sendMaterial\<close> ships \<open>out_commod\<close> only: the deliveries stop at
  the first order for another commodity, where \<open>handleTock\<close> throws; when every order is
  for \<open>out_commod\<close>, no error is raised, every order is delivered and the queue is left
  empty.
\<close>

theorem handleTock_ships_latest_first:
  assumes "\<forall>msg\<in>set msgs. supplier (transaction msg) = Some (ID r)"
  shows "\<exists>r1 res r2 ds.
           receiveMessages r msgs = (Inr (), r1) \<and>
           ordersWaiting r1 = rev msgs @ ordersWaiting r \<and>
           handleTock r1 = (res, r2, ds) \<and>
           map delivered_trans ds =
             takeWhile (\<lambda>t. commod t = out_commod r)
               (rev (map transaction msgs) @ map transaction (ordersWaiting r)) \<and>
           ((\<forall>msg\<in>set msgs \<union> set (ordersWaiting r). commod (transaction msg) = out_commod r) \<longrightarrow>
              res = Inr () \<and> ordersWaiting r2 = [] \<and>
              map delivered_trans ds =
                rev (map transaction msgs) @ map transaction (ordersWaiting r))"
proof -
  let ?r1 = "r\<lparr>ordersWaiting := rev msgs @ ordersWaiting r\<rparr>"
  let ?loop = "processLoop (capacity ?r1) 0 (stocks ?r1) (inventory ?r1)"
  let ?r1' = "?r1\<lparr>inventory := snd (snd ?loop), stocks := fst (snd ?loop)\<rparr>"
  let ?ok = "\<lambda>ord. commod (transaction ord) = out_commod r"
  have recv: "receiveMessages r msgs = (Inr (), ?r1)"
    using assms by (rule receiveMessages_all)
  obtain res0 sto' invt' where eq: "?loop = (res0, sto', invt')"
    by (cases ?loop) auto
  with processLoop_ok [of "capacity ?r1" 0 "stocks ?r1" "inventory ?r1"] have res0: "res0 = Inr ()"
    by simp
  have "out_commod ?r1' = out_commod r" by simp
  from shipOrders_from_empty [OF this, of "ordersWaiting ?r1"]
  obtain r2 ds where ship:
    "shipOrders (ordersWaiting ?r1) ?r1' [] =
       ((if \<forall>ord\<in>set (ordersWaiting ?r1). ?ok ord then Inr () else Inl CommodityMismatch), r2, ds)"
    "map delivered_trans ds =
       takeWhile (\<lambda>t. commod t = out_commod r) (map transaction (ordersWaiting ?r1))"
    "ordersWaiting r2 = dropWhile ?ok (ordersWaiting ?r1)"
    by blast
  let ?res = "if \<forall>ord\<in>set (ordersWaiting ?r1). ?ok ord then Inr () else Inl CommodityMismatch"
  have tock: "handleTock ?r1 = (?res, r2, ds)"
    using eq res0 ship(1) by (simp add: handleTock_def)
  have order: "map delivered_trans ds =
      takeWhile (\<lambda>t. commod t = out_commod r)
        (rev (map transaction msgs) @ map transaction (ordersWaiting r))"
    using ship(2) by (simp add: rev_map)
  have all: "?res = Inr () \<and> ordersWaiting r2 = [] \<and>
      map delivered_trans ds = rev (map transaction msgs) @ map transaction (ordersWaiting r)"
    if ok: "\<forall>msg\<in>set msgs \<union> set (ordersWaiting r). ?ok msg"
  proof -
    from ok have a: "\<forall>ord\<in>set (ordersWaiting ?r1). ?ok ord" by auto
    then have "dropWhile ?ok (ordersWaiting ?r1) = []" by (simp add: dropWhile_eq_Nil_conv)
    moreover from ok have "takeWhile (\<lambda>t. commod t = out_commod r)
        (rev (map transaction msgs) @ map transaction (ordersWaiting r)) =
        rev (map transaction msgs) @ map transaction (ordersWaiting r)"
      by (intro takeWhile_eq_all_conv [THEN iffD2]) auto
    ultimately have "ordersWaiting r2 = []"
      "map delivered_trans ds = rev (map transaction msgs) @ map transaction (ordersWaiting r)"
      using ship(3) order by (simp_all only:)
    moreover from a have "?res = Inr ()" by (rule if_P)
    ultimately show ?thesis by (intro conjI)
  qed
  have queue: "ordersWaiting ?r1 = rev msgs @ ordersWaiting r" by simp
  show ?thesis
  proof (intro exI conjI impI)
    show "receiveMessages r msgs = (Inr (), ?r1)" by (rule recv)
    show "ordersWaiting ?r1 = rev msgs @ ordersWaiting r" by (rule queue)
    show "handleTock ?r1 = (?res, r2, ds)" by (rule tock)
    show "map delivered_trans ds =
      takeWhile (\<lambda>t. commod t = out_commod r)
        (rev (map transaction msgs) @ map transaction (ordersWaiting r))" by (rule order)
  next
    assume "\<forall>msg\<in>set msgs \<union> set (ordersWaiting r). commod (transaction msg) = out_commod r"
    from all [OF this] show "?res = Inr ()" "ordersWaiting r2 = []"
      "map delivered_trans ds = rev (map transaction msgs) @ map transaction (ordersWaiting r)"
      by (simp_all only:)
  qed
qed

theorem handleTock_ships_latest_first_witness:
  "supplier (transaction (order used_fuel 40 7 9)) = Some (ID (reactor 100 10 [kg 30, kg 50] [])) \<and>
   supplier (transaction (order used_fuel 20 7 8)) = Some (ID (reactor 100 10 [kg 30, kg 50] [])) \<and>
   commod (transaction (order used_fuel 40 7 9)) = out_commod (reactor 100 10 [kg 30, kg 50] []) \<and>
   commod (transaction (order used_fuel 20 7 8)) = out_commod (reactor 100 10 [kg 30, kg 50] []) \<and>
   ordersWaiting (reactor 100 10 [kg 30, kg 50] []) = [] \<and>
   (\<exists>r1 r2 ds.
      receiveMessages (reactor 100 10 [kg 30, kg 50] [])
        [order used_fuel 40 7 9, order used_fuel 20 7 8] = (Inr (), r1) \<and>
      ordersWaiting r1 = [order used_fuel 20 7 8, order used_fuel 40 7 9] \<and>
      handleTock r1 = (Inr (), r2, ds) \<and>
      map delivered_trans ds =
        [transaction (order used_fuel 20 7 8), transaction (order used_fuel 40 7 9)] \<and>
      ordersWaiting r2 = [])"
proof -
  let ?r = "reactor 100 10 [kg 30, kg 50] []"
  let ?msgs = "[order used_fuel 40 7 9, order used_fuel 20 7 8]"
  have h1: "\<forall>msg\<in>set ?msgs. supplier (transaction msg) = Some (ID ?r)"
    by (simp add: order_def reactor_def createMessage_def)
  have h2: "\<forall>msg\<in>set ?msgs \<union> set (ordersWaiting ?r). commod (transaction msg) = out_commod ?r"
    by (simp add: order_def reactor_def createMessage_def)
  have empty: "ordersWaiting ?r = []" by (simp add: reactor_def)
  from handleTock_ships_latest_first [OF h1] obtain r1 res r2 ds where run:
    "receiveMessages ?r ?msgs = (Inr (), r1)"
    "ordersWaiting r1 = rev ?msgs @ ordersWaiting ?r"
    "handleTock r1 = (res, r2, ds)"
    "(\<forall>msg\<in>set ?msgs \<union> set (ordersWaiting ?r). commod (transaction msg) = out_commod ?r) \<longrightarrow>
       res = Inr () \<and> ordersWaiting r2 = [] \<and>
       map delivered_trans ds = rev (map transaction ?msgs) @ map transaction (ordersWaiting ?r)"
    by blast
  from run(4) h2 have fin: "res = Inr ()" "ordersWaiting r2 = []"
    "map delivered_trans ds = rev (map transaction ?msgs) @ map transaction (ordersWaiting ?r)"
    by blast+
  have queue: "ordersWaiting r1 = [order used_fuel 20 7 8, order used_fuel 40 7 9]"
    using run(2) empty by simp
  have tock: "handleTock r1 = (Inr (), r2, ds)" using run(3) fin(1) by simp
  have shipped: "map delivered_trans ds =
      [transaction (order used_fuel 20 7 8), transaction (order used_fuel 40 7 9)]"
    using fin(3) empty by simp
  have "\<exists>r1 r2 ds.
      receiveMessages ?r ?msgs = (Inr (), r1) \<and>
      ordersWaiting r1 = [order used_fuel 20 7 8, order used_fuel 40 7 9] \<and>
      handleTock r1 = (Inr (), r2, ds) \<and>
      map delivered_trans ds =
        [transaction (order used_fuel 20 7 8), transaction (order used_fuel 40 7 9)] \<and>
      ordersWaiting r2 = []"
  proof (intro exI conjI)
    show "receiveMessages ?r ?msgs = (Inr (), r1)" by (rule run(1))
    show "ordersWaiting r1 = [order used_fuel 20 7 8, order used_fuel 40 7 9]" by (rule queue)
    show "handleTock r1 = (Inr (), r2, ds)" by (rule tock)
    show "map delivered_trans ds =
        [transaction (order used_fuel 20 7 8), transaction (order used_fuel 40 7 9)]"
      by (rule shipped)
    show "ordersWaiting r2 = []" by (rule fin(2))
  qed
  moreover have "supplier (transaction (order used_fuel 40 7 9)) = Some (ID ?r)"
    "supplier (transaction (order used_fuel 20 7 8)) = Some (ID ?r)"
    "commod (transaction (order used_fuel 40 7 9)) = out_commod ?r"
    "commod (transaction (order used_fuel 20 7 8)) = out_commod ?r"
    by (simp_all add: order_def reactor_def createMessage_def)
  ultimately show ?thesis using empty by (intro conjI)
qed

section \<open>The manifest of sendMaterial\<close>

text \<open>
  The manifest for a transaction of any amount. For a transaction whose commodity is
  \<open>out_commod\<close> and an inventory of resources of non-negative quantity, \<open>sendMaterial\<close>
  raises no error and delivers the first \<open>n\<close> resources of the inventory whole and in
  order, which either exhaust the inventory or reach \<open>trans.amount\<close>, or else the first
  \<open>n\<close> resources whole followed by the part of the next one that \<open>extractMass\<close> splits off
  to reach \<open>trans.amount\<close> exactly, the rest of it staying at the front of the inventory.
  Nothing is taken for an amount that is not positive. What is sent leaves the inventory.
\<close>

lemma sendMaterial_shape:
  assumes "commod tx = out_commod r"
    and "nonneg (inventory r)"
  shows "\<exists>d r'.
           sendMaterial r tx = (Inr d, r') \<and>
           delivered_trans d = tx \<and> to_requester d = requester tx \<and>
           totalMass (manifest d) = min (max (amount tx) 0) (checkInventory r) \<and>
           totalMass (manifest d) + checkInventory r' = checkInventory r \<and>
           (amount tx \<le> 0 \<longrightarrow> manifest d = [] \<and> inventory r' = inventory r) \<and>
           (\<exists>n\<le>length (inventory r).
              (manifest d = take n (inventory r) \<and>
               inventory r' = drop n (inventory r) \<and>
               (n = length (inventory r) \<or> amount tx \<le> totalMass (take n (inventory r)))) \<or>
              (n < length (inventory r) \<and>
               totalMass (take n (inventory r)) < amount tx \<and>
               amount tx < totalMass (take (Suc n) (inventory r)) \<and>
               manifest d =
                 take n (inventory r) @
                   [(inventory r ! n)\<lparr>totMass := amount tx - totalMass (take n (inventory r))\<rparr>] \<and>
               inventory r' =
                 (inventory r ! n)\<lparr>totMass := totMass (inventory r ! n) -
                     (amount tx - totalMass (take n (inventory r)))\<rparr>
                   # drop (Suc n) (inventory r)))"
proof -
  let ?loop = "sendLoop (amount tx) 0 [] (inventory r)"
  let ?d = "\<lparr>to_requester = requester tx, delivered_trans = tx, manifest = fst (snd ?loop)\<rparr>"
  let ?r' = "r\<lparr>inventory := snd (snd ?loop)\<rparr>"
  have send: "sendMaterial r tx = (Inr ?d, ?r')"
    using assms(1) by (rule sendMaterial_sends)
  have total: "totalMass (manifest ?d) = min (max (amount tx) 0) (checkInventory r)"
    using sendLoop_total [of "inventory r" "amount tx" 0 "[]"] assms(2)
    by (simp add: checkInventory_def nonneg_def)
  have conserve: "totalMass (manifest ?d) + checkInventory ?r' = checkInventory r"
    using sendLoop_conserves [of "amount tx" 0 "[]" "inventory r"]
    by (simp add: checkInventory_def)
  from sendLoop_shape [of "inventory r" "amount tx" 0 "[]"]
  obtain n where n: "n \<le> length (inventory r)"
    "(?loop = (Inr (), take n (inventory r), drop n (inventory r)) \<and>
      (n = length (inventory r) \<or> amount tx \<le> totalMass (take n (inventory r)))) \<or>
     (n < length (inventory r) \<and>
      totalMass (take n (inventory r)) < amount tx \<and>
      amount tx < totalMass (take (Suc n) (inventory r)) \<and>
      ?loop =
        (Inr (),
         take n (inventory r) @
           [(inventory r ! n)\<lparr>totMass := amount tx - totalMass (take n (inventory r))\<rparr>],
         (inventory r ! n)\<lparr>totMass := totMass (inventory r ! n) -
             (amount tx - totalMass (take n (inventory r)))\<rparr>
           # drop (Suc n) (inventory r)))"
    by auto
  from n(2) have shape:
    "(manifest ?d = take n (inventory r) \<and>
      inventory ?r' = drop n (inventory r) \<and>
      (n = length (inventory r) \<or> amount tx \<le> totalMass (take n (inventory r)))) \<or>
     (n < length (inventory r) \<and>
      totalMass (take n (inventory r)) < amount tx \<and>
      amount tx < totalMass (take (Suc n) (inventory r)) \<and>
      manifest ?d =
        take n (inventory r) @
          [(inventory r ! n)\<lparr>totMass := amount tx - totalMass (take n (inventory r))\<rparr>] \<and>
      inventory ?r' =
        (inventory r ! n)\<lparr>totMass := totMass (inventory r ! n) -
            (amount tx - totalMass (take n (inventory r)))\<rparr>
          # drop (Suc n) (inventory r))"
    by (elim disjE conjE) simp_all
  have stopped: "amount tx \<le> 0 \<longrightarrow> manifest ?d = [] \<and> inventory ?r' = inventory r"
    by (simp add: sendLoop_stop del: sendLoop.simps)
  have "delivered_trans ?d = tx" "to_requester ?d = requester tx" by simp_all
  with send total conserve stopped n(1) shape show ?thesis by blast
qed

text \<open>
  C3. An order carries the matched amount, which is at least 0. For every call to
  \<open>sendMaterial\<close> with such a transaction whose commodity is \<open>out_commod\<close> (and an
  inventory, empty or not, of resources of non-negative quantity), the delivered manifest
  is built by the split-or-take loop over the inventory in front-to-back order: whole front
  resources are moved until the accumulated quantity reaches \<open>trans.amount\<close> or the
  inventory is empty, the last one being split by \<open>extractMass\<close> when it would overshoot.
  The manifest's total quantity is \<open>min trans.amount (total inventory quantity)\<close>, and a
  total smaller than \<open>trans.amount\<close> is delivered without error.
\<close>

theorem sendMaterial_manifest:
  assumes "commod tx = out_commod r"
    and "nonneg (inventory r)"
    and "0 \<le> amount tx"
  shows "\<exists>d r'.
           sendMaterial r tx = (Inr d, r') \<and>
           delivered_trans d = tx \<and> to_requester d = requester tx \<and>
           totalMass (manifest d) = min (amount tx) (checkInventory r) \<and>
           totalMass (manifest d) + checkInventory r' = checkInventory r \<and>
           (\<exists>n\<le>length (inventory r).
              (manifest d = take n (inventory r) \<and>
               inventory r' = drop n (inventory r) \<and>
               (n = length (inventory r) \<or> amount tx \<le> totalMass (take n (inventory r)))) \<or>
              (n < length (inventory r) \<and>
               totalMass (take n (inventory r)) < amount tx \<and>
               amount tx < totalMass (take (Suc n) (inventory r)) \<and>
               manifest d =
                 take n (inventory r) @
                   [(inventory r ! n)\<lparr>totMass := amount tx - totalMass (take n (inventory r))\<rparr>] \<and>
               inventory r' =
                 (inventory r ! n)\<lparr>totMass := totMass (inventory r ! n) -
                     (amount tx - totalMass (take n (inventory r)))\<rparr>
                   # drop (Suc n) (inventory r)))"
proof -
  from sendMaterial_shape [OF assms(1,2)] obtain d r' where d:
    "sendMaterial r tx = (Inr d, r')"
    "delivered_trans d = tx" "to_requester d = requester tx"
    "totalMass (manifest d) = min (max (amount tx) 0) (checkInventory r)"
    "totalMass (manifest d) + checkInventory r' = checkInventory r"
    "\<exists>n\<le>length (inventory r).
              (manifest d = take n (inventory r) \<and>
               inventory r' = drop n (inventory r) \<and>
               (n = length (inventory r) \<or> amount tx \<le> totalMass (take n (inventory r)))) \<or>
              (n < length (inventory r) \<and>
               totalMass (take n (inventory r)) < amount tx \<and>
               amount tx < totalMass (take (Suc n) (inventory r)) \<and>
               manifest d =
                 take n (inventory r) @
                   [(inventory r ! n)\<lparr>totMass := amount tx - totalMass (take n (inventory r))\<rparr>] \<and>
               inventory r' =
                 (inventory r ! n)\<lparr>totMass := totMass (inventory r ! n) -
                     (amount tx - totalMass (take n (inventory r)))\<rparr>
                   # drop (Suc n) (inventory r))"
    by blast
  from d(4) assms(3) have total: "totalMass (manifest d) = min (amount tx) (checkInventory r)"
    by (simp add: max_absorb1)
  show ?thesis
    by (intro exI [of _ d] exI [of _ r'] conjI) (rule d(1) d(2) d(3) total d(5) d(6))+
qed

theorem sendMaterial_manifest_witness:
  "commod (transaction (order used_fuel 40 7 9)) = out_commod (reactor 100 10 [kg 30, kg 50] []) \<and>
   nonneg (inventory (reactor 100 10 [kg 30, kg 50] [])) \<and>
   0 \<le> amount (transaction (order used_fuel 40 7 9)) \<and>
   sendMaterial (reactor 100 10 [kg 30, kg 50] []) (transaction (order used_fuel 40 7 9)) =
     (Inr \<lparr>to_requester = Some 9, delivered_trans = transaction (order used_fuel 40 7 9),
           manifest = [kg 30, kg 10]\<rparr>,
      reactor 100 10 [kg 40] []) \<and>
   (\<exists>d r'.
      sendMaterial (reactor 100 10 [kg 30, kg 50] []) (transaction (order used_fuel 40 7 9)) = (Inr d, r') \<and>
      totalMass (manifest d) = min 40 (checkInventory (reactor 100 10 [kg 30, kg 50] [])))"
proof -
  let ?r = "reactor 100 10 [kg 30, kg 50] []"
  let ?tx = "transaction (order used_fuel 40 7 9)"
  have h1: "commod ?tx = out_commod ?r"
    by (simp add: order_def reactor_def createMessage_def)
  have h2: "nonneg (inventory ?r)"
    by (simp add: reactor_def nonneg_def kg_def)
  have amt: "amount ?tx = 40" by (simp add: order_def createMessage_def)
  then have h3: "0 \<le> amount ?tx" by simp
  have run: "sendMaterial ?r ?tx =
     (Inr \<lparr>to_requester = Some 9, delivered_trans = ?tx, manifest = [kg 30, kg 10]\<rparr>,
      reactor 100 10 [kg 40] [])"
    by (simp add: sendMaterial_def order_def reactor_def createMessage_def kg_def used_fuel_def
        extractMass_def absorb_def emptyLike_def)
  from sendMaterial_manifest [OF h1 h2 h3] amt have total:
    "\<exists>d r'. sendMaterial ?r ?tx = (Inr d, r') \<and>
       totalMass (manifest d) = min 40 (checkInventory ?r)"
    by auto
  from h1 h2 h3 run total show ?thesis by (intro conjI)
qed

section \<open>The request of handleTick\<close>

text \<open>
  C1, as amended. With \<open>free_space = inventory_size - sum(inventory) - sum(stocks)\<close>:
  \<open>handleTick\<close> emits no request when \<open>free_space\<close> is zero, and otherwise emits exactly
  one request, for \<open>in_commod\<close>, with price 0 and minimum amount 0, to the market of
  \<open>in_commod\<close>; it asks for \<open>free_space\<close> when \<open>free_space < capacity\<close> and for
  \<open>capacity - sum(stocks)\<close> otherwise, and carries the negation of that quantity as its
  amount. When the stocks are empty this quantity is
  \<open>min free_space (capacity - sum(stocks))\<close>.
\<close>

theorem handleTick_request:
  "(free_space r = 0 \<longrightarrow> fst (handleTick r) = None) \<and>
   (free_space r \<noteq> 0 \<longrightarrow>
      fst (handleTick r) =
        Some (newMessage UP_MSG (in_commod r)
                (- (if free_space r < capacity r then free_space r
                    else capacity r - checkStocks r))
                0 0 (ID r) (commod_market (in_commod r)))) \<and>
   (free_space r \<noteq> 0 \<and> checkStocks r = 0 \<longrightarrow>
      (\<exists>req. fst (handleTick r) = Some req \<and>
             amount (transaction req) = - min (free_space r) (capacity r - checkStocks r) \<and>
             price (transaction req) = 0 \<and> minimum (transaction req) = 0))"
  by (auto simp: handleTick_def free_space_def Let_def newMessage_def createMessage_def min_def)

theorem handleTick_request_witness:
  "free_space (reactor 10 8 [kg 10] []) = 0 \<and>
   fst (handleTick (reactor 10 8 [kg 10] [])) = None \<and>
   free_space (reactor 10 8 [] []) \<noteq> 0 \<and> checkStocks (reactor 10 8 [] []) = 0 \<and>
   fst (handleTick (reactor 10 8 [] [])) =
     Some (newMessage UP_MSG fresh_fuel (- 8) 0 0 7 100) \<and>
   free_space (reactor 10 8 [] [kg 3]) \<noteq> 0 \<and>
   fst (handleTick (reactor 10 8 [] [kg 3])) =
     Some (newMessage UP_MSG fresh_fuel (- 7) 0 0 7 100)"
  using handleTick_request [of "reactor 10 8 [kg 10] []"]
        handleTick_request [of "reactor 10 8 [] []"]
        handleTick_request [of "reactor 10 8 [] [kg 3]"]
  by (simp add: free_space_def checkInventory_def checkStocks_def reactor_def kg_def
      fresh_fuel_def)

text \<open>
  C1 as stated fails when the stocks are not empty: with inventory size 10, capacity 8, an
  empty inventory and stocks of 3, the free space is 7, less than the capacity, and the
  request is for 7, while \<open>min free_space (capacity - sum(stocks))\<close> is 5.
\<close>

theorem handleTick_request_not_min_counterexample:
  "free_space (reactor 10 8 [] [kg 3]) = 7 \<and>
   fst (handleTick (reactor 10 8 [] [kg 3])) = Some (newMessage UP_MSG fresh_fuel (- 7) 0 0 7 100) \<and>
   \<bar>amount (transaction (newMessage UP_MSG fresh_fuel (- 7) 0 0 7 100))\<bar> = 7 \<and>
   min (free_space (reactor 10 8 [] [kg 3]))
       (capacity (reactor 10 8 [] [kg 3]) - checkStocks (reactor 10 8 [] [kg 3])) = 5"
  by (simp add: handleTick_def free_space_def checkInventory_def checkStocks_def reactor_def
      kg_def fresh_fuel_def newMessage_def createMessage_def Let_def)

text \<open>
  C2. A request of \<open>handleTick\<close> carries the amount \<open>- requestAmt\<close> ("recall that requests
  have a negative amount"), which is negative only for a positive \<open>requestAmt\<close>. With
  inventory size 20, capacity 5 and an empty inventory, stocks of 8 give
  \<open>requestAmt = capacity - sto = -3\<close> and a request whose amount is 3, positive; stocks of 5
  give a request whose amount is 0.
\<close>

theorem handleTick_request_not_negative:
  "fst (handleTick (reactor 20 5 [] [kg 8])) = Some (newMessage UP_MSG fresh_fuel 3 0 0 7 100) \<and>
   amount (transaction (newMessage UP_MSG fresh_fuel 3 0 0 7 100)) = 3 \<and>
   fst (handleTick (reactor 20 5 [] [kg 5])) = Some (newMessage UP_MSG fresh_fuel 0 0 0 7 100) \<and>
   amount (transaction (newMessage UP_MSG fresh_fuel 0 0 0 7 100)) = 0"
  by (simp add: handleTick_def checkInventory_def checkStocks_def reactor_def
      kg_def fresh_fuel_def newMessage_def createMessage_def Let_def)

section \<open>The inventory bound\<close>








section \<open>The two legs of a message\<close>

lemma sendUp_path:
  "dir msg = UP_MSG \<Longrightarrow> current_owner msg = Some h \<Longrightarrow>
   sendUp msg stops = Inr (msg', passed) \<Longrightarrow>
   dir msg' = UP_MSG \<and> passed = butlast (h # stops) \<and>
   path_stack msg' = rev passed @ path_stack msg \<and>
   current_owner msg' = Some (last (h # stops)) \<and> sender msg' = sender msg"
proof (induction stops arbitrary: msg h msg' passed)
  case Nil
  then show ?case by simp
next
  case (Cons next_stop stops)
  from Cons.prems(3) obtain msg1 where set: "setNextDest msg next_stop = Inr msg1"
    by (auto split: sum.splits)
  with Cons.prems(1,2) have msg1: "msg1 = msg\<lparr>next_dest := Some next_stop\<rparr>"
    by (auto simp: setNextDest_def split: if_splits)
  from Cons.prems(3) set obtain msg2 rcv where send: "sendOn msg1 = Inr (msg2, rcv)"
    by (auto split: sum.splits)
  with msg1 Cons.prems(1,2) have msg2:
    "msg2 = msg\<lparr>path_stack := h # path_stack msg, current_owner := Some next_stop,
                 next_dest := None\<rparr>"
    by (auto simp: sendOn_def split: if_splits)
  from Cons.prems(3) set send obtain passed' where
    rest: "sendUp msg2 stops = Inr (msg', passed')" and passed: "passed = h # passed'"
    using Cons.prems(2) by (auto split: sum.splits)
  have "dir msg2 = UP_MSG" "current_owner msg2 = Some next_stop"
    using msg2 Cons.prems(1) by simp_all
  from Cons.IH [OF this rest] msg2 passed show ?case by simp
qed

lemma driveDown_retraces:
  "dir msg = DOWN_MSG \<Longrightarrow>
   \<exists>msg'. driveDown msg = Inr (msg', path_stack msg) \<and>
          dir msg' = NONE_MSG \<and> path_stack msg' = []"
proof (induction "path_stack msg" arbitrary: msg)
  case Nil
  then have "sendOn msg = Inr (msg\<lparr>dir := NONE_MSG\<rparr>, None)"
    by (simp add: sendOn_def)
  moreover have "driveDown (msg\<lparr>dir := NONE_MSG\<rparr>) = Inr (msg\<lparr>dir := NONE_MSG\<rparr>, [])"
    by (subst driveDown.simps) simp
  ultimately have "driveDown msg = Inr (msg\<lparr>dir := NONE_MSG\<rparr>, [])"
    using Nil by (subst driveDown.simps) simp
  with Nil show ?case by simp
next
  case (Cons popped rest)
  let ?msg1 = "msg\<lparr>path_stack := rest, current_owner := Some popped,
                   dir := (if rest = [] then NONE_MSG else DOWN_MSG)\<rparr>"
  have stack: "path_stack msg = popped # rest" using Cons.hyps(2) by simp
  with Cons.prems have send: "sendOn msg = Inr (?msg1, Some popped)"
    by (simp add: sendOn_def)
  have "\<exists>msg'. driveDown ?msg1 = Inr (msg', rest) \<and> dir msg' = NONE_MSG \<and> path_stack msg' = []"
  proof (cases "rest = []")
    case True
    then have "driveDown ?msg1 = Inr (?msg1, [])"
      by (subst driveDown.simps) simp
    with True show ?thesis by simp
  next
    case False
    then have "rest = path_stack ?msg1" "dir ?msg1 = DOWN_MSG" by simp_all
    from Cons.hyps(1) [OF this] show ?thesis by simp
  qed
  then obtain msg' where "driveDown ?msg1 = Inr (msg', rest)" "dir msg' = NONE_MSG"
    "path_stack msg' = []" by blast
  with send Cons.prems stack show ?case
    by (subst driveDown.simps) simp
qed

text \<open>
  C4. A message created UP by its originator \<open>s\<close> and sent up through the stops \<open>stops\<close>
  passes through the holders \<open>butlast (s # stops)\<close>: the originator and every stop but the
  last, where it is. Flipped DOWN there and driven by repeated \<open>sendOn\<close>, it is received by
  exactly these agents in reverse order, the originator last, and ends terminal with an
  empty path stack.
\<close>

theorem down_leg_reverses_up_leg:
  assumes "sendUp (createMessage s rcp tx) stops = Inr (msg, passed)"
  shows "passed = butlast (s # stops) \<and> dir msg = UP_MSG \<and>
         (\<exists>msg'. driveDown (reverseDirection msg) = Inr (msg', rev passed) \<and>
                 dir msg' = NONE_MSG \<and> path_stack msg' = [])"
proof -
  have "dir (createMessage s rcp tx) = UP_MSG" "current_owner (createMessage s rcp tx) = Some s"
    "path_stack (createMessage s rcp tx) = []"
    by (simp_all add: createMessage_def)
  with sendUp_path [OF this(1,2) assms] have up:
    "dir msg = UP_MSG" "passed = butlast (s # stops)" "path_stack msg = rev passed"
    by simp_all
  then have "dir (reverseDirection msg) = DOWN_MSG" "path_stack (reverseDirection msg) = rev passed"
    by (simp_all add: reverseDirection_def)
  with driveDown_retraces [of "reverseDirection msg"] up show ?thesis by simp
qed

lemma at_market_run: "sendUp (createMessage 1 9 tx0) [2, 3, 9] = Inr (at_market, [1, 2, 3])"
  by (simp add: createMessage_def at_market_def setNextDest_def sendOn_def)

theorem down_leg_reverses_up_leg_witness:
  "sendUp (createMessage 1 9 tx0) [2, 3, 9] = Inr (at_market, [1, 2, 3]) \<and>
   [1, 2, 3] = butlast (1 # [2, 3, 9 :: nat]) \<and> dir at_market = UP_MSG \<and>
   (\<exists>msg'. driveDown (reverseDirection at_market) = Inr (msg', rev [1, 2, 3]) \<and>
           dir msg' = NONE_MSG \<and> path_stack msg' = [])"
  using down_leg_reverses_up_leg [OF at_market_run] at_market_run by simp

text \<open>
  C5, as amended. \<open>sendOn\<close> raises an error in exactly three situations: direction UP with
  no next destination (\<open>NoDestination\<close>), direction UP with the originator as next
  destination (\<open>Circular\<close>), and a terminal message (\<open>TerminalMessage\<close>). A message driven
  down to the end of its round trip is terminal, so one more \<open>sendOn\<close> raises
  \<open>TerminalMessage\<close>.
\<close>

theorem sendOn_errors:
  "(sendOn msg = Inl NoDestination) = (dir msg = UP_MSG \<and> next_dest msg = None) \<and>
   (sendOn msg = Inl Circular) = (dir msg = UP_MSG \<and> next_dest msg = Some (sender msg)) \<and>
   (sendOn msg = Inl TerminalMessage) = (dir msg = NONE_MSG) \<and>
   (\<exists>e. sendOn msg = Inl e) =
     (sendOn msg = Inl NoDestination \<or> sendOn msg = Inl Circular \<or>
      sendOn msg = Inl TerminalMessage) \<and>
   (dir msg = DOWN_MSG \<longrightarrow>
      (\<exists>msg' rcvs. driveDown msg = Inr (msg', rcvs) \<and> sendOn msg' = Inl TerminalMessage))"
proof -
  have a: "(sendOn msg = Inl NoDestination) = (dir msg = UP_MSG \<and> next_dest msg = None)"
    by (cases "dir msg") (auto simp: sendOn_def split: option.splits list.splits)
  have b: "(sendOn msg = Inl Circular) = (dir msg = UP_MSG \<and> next_dest msg = Some (sender msg))"
    by (cases "dir msg") (auto simp: sendOn_def split: option.splits list.splits)
  have c: "(sendOn msg = Inl TerminalMessage) = (dir msg = NONE_MSG)"
    by (cases "dir msg") (auto simp: sendOn_def split: option.splits list.splits)
  have d: "(\<exists>e. sendOn msg = Inl e) =
     (sendOn msg = Inl NoDestination \<or> sendOn msg = Inl Circular \<or>
      sendOn msg = Inl TerminalMessage)"
    by (cases "dir msg") (auto simp: sendOn_def split: option.splits list.splits)
  have e: "\<exists>msg' rcvs. driveDown msg = Inr (msg', rcvs) \<and> sendOn msg' = Inl TerminalMessage"
    if "dir msg = DOWN_MSG"
  proof -
    from driveDown_retraces [OF that] obtain msg' where
      "driveDown msg = Inr (msg', path_stack msg)" "dir msg' = NONE_MSG" by blast
    moreover from this(2) have "sendOn msg' = Inl TerminalMessage" by (simp add: sendOn_def)
    ultimately show ?thesis by blast
  qed
  from a b c d e show ?thesis by blast
qed

theorem sendOn_errors_witness:
  "dir (reverseDirection at_market) = DOWN_MSG \<and>
   (\<exists>msg' rcvs. driveDown (reverseDirection at_market) = Inr (msg', rcvs) \<and>
                sendOn msg' = Inl TerminalMessage)"
  using sendOn_errors [of "reverseDirection at_market"]
  by (simp add: reverseDirection_def at_market_def)

text \<open>
  C5 as stated names two situations only. A message that originator 1 sent to 2, and that 2
  designates to go back to 1, is neither without a next destination nor terminal, and
  \<open>sendOn\<close> raises \<open>Circular\<close>.
\<close>

theorem sendOn_circular_counterexample:
  "sendUp (createMessage 1 9 tx0) [2] = Inr (at_institution, [1]) \<and>
   setNextDest at_institution 1 = Inr back_to_sender \<and>
   sendOn back_to_sender = Inl Circular \<and>
   dir back_to_sender = UP_MSG \<and> next_dest back_to_sender \<noteq> None \<and>
   dir back_to_sender \<noteq> NONE_MSG"
  by (simp add: createMessage_def at_institution_def back_to_sender_def setNextDest_def
      sendOn_def)

section \<open>The environment variable\<close>

text \<open>
  C6. With \<open>CYCLUS_PATH\<close> absent from the environment, \<open>getenv\<close> returns a null pointer
  and \<open>checkEnv\<close> passes it to \<open>strlen\<close> before it compares it with \<open>NULL\<close>: the
  behaviour is undefined, and the \<open>GenException\<close> of the else branch is not what the call
  does. A variable set to a non-empty string is returned.
\<close>

theorem checkEnv_unset:
  "checkEnv Map.empty ''CYCLUS_PATH'' = UndefinedBehaviour \<and>
   checkEnv Map.empty ''CYCLUS_PATH'' \<noteq> GenException ''Environment variable CYCLUS_PATH not set.'' \<and>
   checkEnv [''CYCLUS_PATH'' \<mapsto> ''/opt/cyclus''] ''CYCLUS_PATH'' = Returned ''/opt/cyclus''"
  by (simp add: checkEnv_def getenv_def)

text \<open>
  C10. A variable set to the empty string makes \<open>checkEnv\<close> throw its \<open>GenException\<close>.
  A variable that is not set, here \<open>CYCLUS_PATH\<close> in an environment that holds \<open>HOME\<close>
  only, does not: \<open>strlen\<close> is applied to the null pointer first.
\<close>

theorem checkEnv_empty_and_unset:
  "checkEnv [''CYCLUS_PATH'' \<mapsto> ''''] ''CYCLUS_PATH'' =
     GenException ''Environment variable CYCLUS_PATH not set.'' \<and>
   checkEnv [''HOME'' \<mapsto> ''/root''] ''CYCLUS_PATH'' = UndefinedBehaviour"
  by (simp add: checkEnv_def getenv_def)

end
